theory Spec2Isabelle
  imports Complex_Main "HOL-Library.Sublist"
begin

section \<open>Python values used by the services\<close>

text \<open>
  A Python \<open>str\<close> is a sequence of Unicode code points; \<open>len\<close>, slicing and
  \<open>strip\<close> all count code points.  A string is therefore a list of code points
  (natural numbers); \<open>str_of\<close> reads an ASCII literal.
\<close>

type_synonym str = "nat list"

definition str_of :: "string \<Rightarrow> str" where
  "str_of s = map of_char s"

text \<open>
  \<open>str.isspace\<close> on one code point: the characters that \<open>str.strip()\<close>
  (called without argument) removes.
\<close>

definition isspace :: "nat \<Rightarrow> bool" where
  "isspace c =
     ((9 \<le> c \<and> c \<le> 13) \<or> (28 \<le> c \<and> c \<le> 32) \<or> c = 133 \<or> c = 160 \<or> c = 5760
      \<or> (8192 \<le> c \<and> c \<le> 8202) \<or> c = 8232 \<or> c = 8233 \<or> c = 8239 \<or> c = 8287
      \<or> c = 12288)"

definition strip :: "str \<Rightarrow> str" where
  "strip s = rev (dropWhile isspace (rev (dropWhile isspace s)))"

text \<open>
  \<open>xs[a:b]\<close>: a negative bound counts from the end, and both bounds are clamped to
  the sequence; an empty or inverted range gives the empty sequence.
\<close>

definition py_slice :: "'a list \<Rightarrow> int \<Rightarrow> int \<Rightarrow> 'a list" where
  "py_slice xs a b =
     (let n = int (length xs);
          lo = (if a < 0 then max 0 (a + n) else min a n);
          hi = (if b < 0 then max 0 (b + n) else min b n)
      in take (nat (hi - lo)) (drop (nat lo) xs))"

text \<open>
  \<open>range(start, stop, step)\<close> for a non-zero step, as the list of the values it
  yields.  A zero step makes \<open>range\<close> raise \<open>ValueError\<close>; the caller models that.
\<close>

function py_range :: "int \<Rightarrow> int \<Rightarrow> int \<Rightarrow> int list" where
  "py_range i stop step =
     (if 0 < step \<and> i < stop then i # py_range (i + step) stop step
      else if step < 0 \<and> stop < i then i # py_range (i + step) stop step
      else [])"
  by pat_completeness auto
termination
  by (relation "measure (\<lambda>(i, stop, step). nat (if 0 < step then stop - i else i - stop))")
     auto

datatype py_error =
    ValueError str
  | IndexError str
  | LibraryError str

fun exc_str :: "py_error \<Rightarrow> str" where
  "exc_str (ValueError m) = m"
| "exc_str (IndexError m) = m"
| "exc_str (LibraryError m) = m"

section \<open>services/document\_processor.py\<close>

record document_processor =
  chunk_size :: int
  chunk_overlap :: int

text \<open>
  \<open>DocumentProcessor.__init__\<close> stores its two arguments.  The result is a sum so
  that "the constructor raised" could be said; the source has no such branch.
\<close>

definition DocumentProcessor_init :: "int \<Rightarrow> int \<Rightarrow> py_error + document_processor" where
  "DocumentProcessor_init sz ov = Inr \<lparr>chunk_size = sz, chunk_overlap = ov\<rparr>"

text \<open>
  The body of the \<open>for i in range(0, text_length, step)\<close> loop of \<open>chunk_text\<close>,
  run over the values the range yields, with the list \<open>chunks\<close> built so far.  The
  \<open>break\<close> leaves the loop after the first window that reaches the end of the text.
\<close>

fun chunk_loop :: "document_processor \<Rightarrow> str \<Rightarrow> int list \<Rightarrow> str list \<Rightarrow> str list" where
  "chunk_loop dp text [] chunks = chunks"
| "chunk_loop dp text (i # rest) chunks =
     (let chunk = py_slice text i (i + chunk_size dp);
          chunks' = (if strip chunk \<noteq> [] then chunks @ [strip chunk] else chunks)
      in if i + chunk_size dp \<ge> int (length text) then chunks'
         else chunk_loop dp text rest chunks')"

definition chunk_text :: "document_processor \<Rightarrow> str \<Rightarrow> py_error + str list" where
  "chunk_text dp text =
     (if text = [] then Inr []
      else
        let text_length = int (length text);
            step = chunk_size dp - chunk_overlap dp
        in if step = 0 then Inl (ValueError (str_of ''range() arg 3 must not be zero''))
           else Inr (chunk_loop dp text (py_range 0 text_length step) []))"

subsection \<open>The windows the loop looks at\<close>

text \<open>
  The values of \<open>i\<close> for which the loop body runs: the values of the range up to
  and including the first one with \<open>i + chunk_size \<ge> text_length\<close>.
\<close>

fun visited :: "int \<Rightarrow> int \<Rightarrow> int list \<Rightarrow> int list" where
  "visited sz n [] = []"
| "visited sz n (i # rest) = (if i + sz \<ge> n then [i] else i # visited sz n rest)"

definition window_offsets :: "document_processor \<Rightarrow> str \<Rightarrow> int list" where
  "window_offsets dp text =
     (if text = [] \<or> chunk_size dp - chunk_overlap dp = 0 then []
      else visited (chunk_size dp) (int (length text))
             (py_range 0 (int (length text)) (chunk_size dp - chunk_overlap dp)))"

text \<open>What one window contributes to the result: its trimmed text, unless that is empty.\<close>

definition emit :: "document_processor \<Rightarrow> str \<Rightarrow> int \<Rightarrow> str list" where
  "emit dp text i =
     (let chunk = py_slice text i (i + chunk_size dp)
      in if strip chunk \<noteq> [] then [strip chunk] else [])"

subsection \<open>The chunker as the specification words it\<close>

text \<open>
  Section 4.1 of the specification: starting at offset 0, emit
  \<open>text[offset : offset+size]\<close> trimmed, skip a window that is empty after trimming,
  advance by \<open>step\<close>, stop after the window with \<open>offset + size \<ge> length(text)\<close>.
  The specification only speaks of \<open>step > 0\<close>; the test \<open>step = 0\<close> makes the
  function total.
\<close>

function sliding_window :: "str \<Rightarrow> nat \<Rightarrow> nat \<Rightarrow> nat \<Rightarrow> str list" where
  "sliding_window text sz step offset =
     (let w = strip (take sz (drop offset text));
          out = (if w = [] then [] else [w])
      in if offset + sz \<ge> length text \<or> step = 0 then out
         else out @ sliding_window text sz step (offset + step))"
  by pat_completeness auto
termination
  by (relation "measure (\<lambda>(text, sz, step, offset). length text - offset)") auto

definition chunk_spec :: "str \<Rightarrow> int \<Rightarrow> int \<Rightarrow> str list" where
  "chunk_spec text sz ov =
     (if text = [] then [] else sliding_window text (nat sz) (nat (sz - ov)) 0)"

section \<open>services/vector\_store.py\<close>

text \<open>
  The metadata dictionary that \<open>add_documents\<close> attaches to every chunk; its five
  keys are always present, so it is a record.  Floats (embeddings, distances, scores) are
  modelled by the rational numbers they denote.
\<close>

record metadata =
  document_id :: str
  filename :: str
  chunk_index :: int
  upload_time :: str
  total_chunks :: int

record entry =
  entry_id :: str
  embedding :: "rat list"
  document :: str
  meta :: metadata

text \<open>
  The Chroma collection behind \<open>self.collection\<close>: its records in storage order.
  Chroma keeps the ids of a collection unique; theorems that need it assume
  \<open>distinct (map entry_id coll)\<close>.  The three library calls the source makes on it:
  \<open>get(where={"document_id": d})['ids']\<close>, \<open>delete(ids=...)\<close> and \<open>count()\<close>.
\<close>

type_synonym collection = "entry list"

definition collection_get_ids :: "collection \<Rightarrow> str \<Rightarrow> str list" where
  "collection_get_ids coll d = map entry_id (filter (\<lambda>e. document_id (meta e) = d) coll)"

definition collection_delete :: "collection \<Rightarrow> str list \<Rightarrow> collection" where
  "collection_delete coll ids = filter (\<lambda>e. \<not> List.member ids (entry_id e)) coll"

definition collection_count :: "collection \<Rightarrow> int" where
  "collection_count coll = int (length coll)"

text \<open>
  \<open>delete_document\<close> changes the collection and returns a count: the model returns
  the new collection with the count.
\<close>

definition delete_document :: "collection \<Rightarrow> str \<Rightarrow> collection \<times> int" where
  "delete_document coll d =
     (let ids = collection_get_ids coll d
      in if ids = [] then (coll, 0)
         else (collection_delete coll ids, int (length ids)))"

definition get_chunk_count :: "collection \<Rightarrow> int" where
  "get_chunk_count coll = collection_count coll"

section \<open>services/rag\_pipeline.py\<close>

text \<open>
  What \<open>collection.query\<close> returns for the one query embedding the source passes: one
  inner list per query embedding under each key; \<open>distances\<close> may be absent.
\<close>

record search_results =
  documents :: "str list list"
  metadatas :: "metadata list list"
  distances :: "rat list list option"

record source_document =
  source_document_id :: str
  source_filename :: str
  source_chunk_index :: int
  relevance_score :: rat
  content :: str

record query_response =
  answer :: str
  sources :: "source_document list"
  query :: str
  timestamp :: str

text \<open>
  The Ollama client is outside the repository.  \<open>client_generate model prompt\<close> is the
  text under the key \<open>response\<close>, or the exception raised by the call or by reading
  that key (both stand inside the \<open>try\<close>); \<open>client_list\<close> is the value under
  \<open>name\<close> of every listed model (\<open>None\<close> where a model has no such key, which
  makes \<open>model['name']\<close> raise), or the exception the call raised.
\<close>

record ollama_client =
  client_generate :: "str \<Rightarrow> str \<Rightarrow> py_error + str"
  client_list :: "py_error + str option list"

record rag_pipeline =
  model_name :: str
  client :: ollama_client

fun digits :: "nat \<Rightarrow> str" where
  "digits n = (if n < 10 then [48 + n] else digits (n div 10) @ [48 + n mod 10])"

fun py_join :: "str \<Rightarrow> str list \<Rightarrow> str" where
  "py_join sep [] = []"
| "py_join sep [x] = x"
| "py_join sep (x # y # ys) = x @ sep @ py_join sep (y # ys)"

definition index_error :: py_error where
  "index_error = IndexError (str_of ''list index out of range'')"

definition build_context :: "search_results \<Rightarrow> py_error + str" where
  "build_context search_results =
     (case documents search_results of
        [] \<Rightarrow> Inr (str_of ''No relevant context found.'')
      | docs # _ \<Rightarrow>
          if docs = [] then Inr (str_of ''No relevant context found.'')
          else (case metadatas search_results of
                  [] \<Rightarrow> Inl index_error
                | ms # _ \<Rightarrow>
                    Inr (py_join [10]
                      (map (\<lambda>(i, doc, m).
                              str_of ''[Source '' @ digits (i + 1) @ str_of '': '' @ filename m
                                @ str_of '']'' @ [10] @ doc @ [10])
                         (zip [0 ..< length docs] (zip docs ms))))))"

definition build_prompt :: "str \<Rightarrow> str \<Rightarrow> str" where
  "build_prompt q context =
     str_of ''You are a helpful AI assistant for an e-commerce platform. Answer the user's question based on the provided context from product documents.''
     @ [10, 10] @ str_of ''Context from documents:'' @ [10] @ context
     @ [10, 10] @ str_of ''User Question: '' @ q
     @ [10, 10] @ str_of ''Instructions:'' @ [10]
     @ str_of ''- Answer the question using ONLY the information from the context above'' @ [10]
     @ str_of ''- If the context doesn't contain enough information to answer, say '' @ [34]
     @ str_of ''I don't have enough information in the documents to answer this question.''
     @ [34] @ [10]
     @ str_of ''- Be concise and accurate'' @ [10]
     @ str_of ''- If referencing specific products or features, mention the source document''
     @ [10, 10] @ str_of ''Answer:''"

text \<open>
  \<open>round(x, 3)\<close>: to the nearest multiple of one thousandth, a tie going to the even
  one.
\<close>

definition round_half_even :: "rat \<Rightarrow> int" where
  "round_half_even x =
     (let f = \<lfloor>x\<rfloor>; d = x - of_int f
      in if d < 1 / 2 then f
         else if 1 / 2 < d then f + 1
         else if even f then f else f + 1)"

definition py_round3 :: "rat \<Rightarrow> rat" where
  "py_round3 x = of_int (round_half_even (x * 1000)) / 1000"

definition similarity_score :: "rat \<Rightarrow> rat" where
  "similarity_score distance = (if distance \<le> 1 then 1 - distance else 0)"

definition make_source :: "str \<Rightarrow> metadata \<Rightarrow> rat \<Rightarrow> source_document" where
  "make_source doc m distance =
     \<lparr>source_document_id = document_id m,
      source_filename = filename m,
      source_chunk_index = chunk_index m,
      relevance_score = py_round3 (similarity_score distance),
      content = (if length doc > 200 then py_slice doc 0 200 @ str_of ''...'' else doc)\<rparr>"

text \<open>The second half of \<open>generate_response\<close>: the list \<open>sources\<close>.\<close>

definition extract_sources :: "search_results \<Rightarrow> py_error + source_document list" where
  "extract_sources search_results =
     (case documents search_results of
        [] \<Rightarrow> Inr []
      | docs # _ \<Rightarrow>
          if docs = [] then Inr []
          else (case metadatas search_results of
                  [] \<Rightarrow> Inl index_error
                | ms # _ \<Rightarrow>
                    (case distances search_results of
                       None \<Rightarrow>
                         Inr (map (\<lambda>(doc, m, distance). make_source doc m distance)
                                (zip docs (zip ms (replicate (length docs) 0))))
                     | Some [] \<Rightarrow> Inl index_error
                     | Some (ds # _) \<Rightarrow>
                         Inr (map (\<lambda>(doc, m, distance). make_source doc m distance)
                                (zip docs (zip ms ds))))))"

text \<open>
  \<open>generate_response\<close>; \<open>now\<close> is what \<open>datetime.now().isoformat()\<close> returns.
  Only the call of the backend stands inside the \<open>try\<close>.
\<close>

definition generate_response ::
    "rag_pipeline \<Rightarrow> str \<Rightarrow> str \<Rightarrow> search_results \<Rightarrow> py_error + query_response" where
  "generate_response self now q search_results =
     (case build_context search_results of
        Inl e \<Rightarrow> Inl e
      | Inr context \<Rightarrow>
          let prompt = build_prompt q context;
              ans = (case client_generate (client self) (model_name self) prompt of
                       Inr response \<Rightarrow> strip response
                     | Inl e \<Rightarrow> str_of ''Error generating response: '' @ exc_str e)
          in (case extract_sources search_results of
                Inl e \<Rightarrow> Inl e
              | Inr srcs \<Rightarrow>
                  Inr \<lparr>answer = ans, sources = srcs, query = q, timestamp = now\<rparr>))"

text \<open>\<open>a in b\<close> on strings: \<open>a\<close> occurs in \<open>b\<close> as a block of consecutive characters.\<close>

fun py_in :: "str \<Rightarrow> str \<Rightarrow> bool" where
  "py_in a [] = (a = [])"
| "py_in a (c # cs) = (prefix a (c # cs) \<or> py_in a cs)"

definition startswith :: "str \<Rightarrow> str \<Rightarrow> bool" where
  "startswith name p = prefix p name"

definition check_ollama_available :: "rag_pipeline \<Rightarrow> bool" where
  "check_ollama_available self =
     (case client_list (client self) of
        Inl e \<Rightarrow> False
      | Inr models \<Rightarrow>
          if list_ex (\<lambda>m. m = None) models then False
          else list_ex (\<lambda>name. py_in (model_name self) name \<or> startswith name (model_name self))
                 (map the models))"

section \<open>routes/query.py\<close>

record query_request =
  request_query :: str
  request_top_k :: "int option"

datatype http_exception = HTTPException int str

text \<open>
  The services and settings of the route that are outside the repository: the embedding
  model, Chroma's nearest-neighbour query, the clock, and the text of the error Pydantic
  raises for a response that breaks the bounds declared in \<open>models.py\<close>.
\<close>

record services =
  generate_embedding :: "str \<Rightarrow> py_error + rat list"
  collection_query :: "collection \<Rightarrow> rat list \<Rightarrow> int \<Rightarrow> py_error + search_results"
  pipeline :: rag_pipeline
  clock :: str
  validation_text :: "query_response \<Rightarrow> str"

definition top_k_results :: int where
  "top_k_results = 3"

text \<open>\<open>QueryResponse(**response_data)\<close>: every relevance score must lie in [0, 1].\<close>

definition QueryResponse :: "services \<Rightarrow> query_response \<Rightarrow> py_error + query_response" where
  "QueryResponse sv r =
     (if list_all (\<lambda>s. 0 \<le> relevance_score s \<and> relevance_score s \<le> 1) (sources r) then Inr r
      else Inl (LibraryError (validation_text sv r)))"

definition query_steps ::
    "services \<Rightarrow> collection \<Rightarrow> query_request \<Rightarrow> py_error + query_response" where
  "query_steps sv coll request =
     (case generate_embedding sv (request_query request) of
        Inl e \<Rightarrow> Inl e
      | Inr query_embedding \<Rightarrow>
          let top_k = (case request_top_k request of
                         None \<Rightarrow> top_k_results
                       | Some k \<Rightarrow> if k \<noteq> 0 then k else top_k_results)
          in (case collection_query sv coll query_embedding top_k of
                Inl e \<Rightarrow> Inl e
              | Inr search_results \<Rightarrow>
                  (case generate_response (pipeline sv) (clock sv) (request_query request)
                          search_results of
                     Inl e \<Rightarrow> Inl e
                   | Inr response_data \<Rightarrow> QueryResponse sv response_data)))"

definition query_documents ::
    "services \<Rightarrow> collection \<Rightarrow> query_request \<Rightarrow> http_exception + query_response" where
  "query_documents sv coll request =
     (if get_chunk_count coll = 0
      then Inl (HTTPException 400
             (str_of ''No documents have been indexed yet. Please upload documents first.''))
      else (case query_steps sv coll request of
              Inl e \<Rightarrow>
                Inl (HTTPException 500 (str_of ''Failed to process query: '' @ exc_str e))
            | Inr r \<Rightarrow> Inr r))"

section \<open>Query results as Chroma shapes them, and sample data\<close>

text \<open>
  A result of \<open>collection.query\<close> for one query embedding has one inner list under
  every key it carries.  \<open>generate_response\<close> indexes \<open>metadatas\<close> and \<open>distances\<close>
  with \<open>[0]\<close> without a test, so this is the shape it relies on.
\<close>

definition chroma_shaped :: "search_results \<Rightarrow> bool" where
  "chroma_shaped sr =
     (case documents sr of
        [] \<Rightarrow> True
      | docs # _ \<Rightarrow> docs = [] \<or> (metadatas sr \<noteq> [] \<and> distances sr \<noteq> Some []))"

definition demo_meta :: "str \<Rightarrow> int \<Rightarrow> metadata" where
  "demo_meta d i =
     \<lparr>document_id = d, filename = str_of ''a.txt'', chunk_index = i,
      upload_time = str_of ''2024-01-01T00:00:00'', total_chunks = 2\<rparr>"

definition demo_collection :: collection where
  "demo_collection =
     [\<lparr>entry_id = str_of ''d1_chunk_0'', embedding = [1, 0], document = str_of ''A. B'',
        meta = demo_meta (str_of ''d1'') 0\<rparr>,
      \<lparr>entry_id = str_of ''d2_chunk_0'', embedding = [0, 1], document = str_of ''C. D'',
        meta = demo_meta (str_of ''d2'') 0\<rparr>,
      \<lparr>entry_id = str_of ''d1_chunk_1'', embedding = [1, 1], document = str_of ''B. C'',
        meta = demo_meta (str_of ''d1'') 1\<rparr>]"

definition demo_results :: search_results where
  "demo_results =
     \<lparr>documents = [[str_of ''A. B'', str_of ''B. C'']],
      metadatas = [[demo_meta (str_of ''d1'') 0, demo_meta (str_of ''d1'') 1]],
      distances = Some [[1 / 4, 3 / 2]]\<rparr>"

definition connection_refused :: py_error where
  "connection_refused = LibraryError (str_of ''connection refused'')"

definition offline_client :: ollama_client where
  "offline_client =
     \<lparr>client_generate = (\<lambda>m prompt. Inl connection_refused),
      client_list = Inl connection_refused\<rparr>"

definition listing_client :: "str list \<Rightarrow> ollama_client" where
  "listing_client names =
     \<lparr>client_generate = (\<lambda>m prompt. Inr (str_of '' ok '')),
      client_list = Inr (map Some names)\<rparr>"

definition demo_pipeline :: "ollama_client \<Rightarrow> rag_pipeline" where
  "demo_pipeline c = \<lparr>model_name = str_of ''llama3.2'', client = c\<rparr>"

definition demo_services :: services where
  "demo_services =
     \<lparr>generate_embedding = (\<lambda>t. Inr [1, 0]),
      collection_query = (\<lambda>coll v k. Inr demo_results),
      pipeline = demo_pipeline offline_client,
      clock = str_of ''2024-01-01T00:00:00'',
      validation_text = (\<lambda>r. str_of ''validation error for QueryResponse'')\<rparr>"

definition demo_request :: query_request where
  "demo_request = \<lparr>request_query = str_of ''What is B?'', request_top_k = Some 2\<rparr>"

section \<open>Facts about the Python values\<close>

declare py_range.simps [simp del] sliding_window.simps [simp del]

lemma py_range_step:
  "0 < step \<Longrightarrow> i < stop \<Longrightarrow> py_range i stop step = i # py_range (i + step) stop step"
  by (subst py_range.simps) simp

lemma py_range_done: "0 < step \<Longrightarrow> stop \<le> i \<Longrightarrow> py_range i stop step = []"
  by (subst py_range.simps) simp

lemma py_range_backwards: "step < 0 \<Longrightarrow> i \<le> stop \<Longrightarrow> py_range i stop step = []"
  by (subst py_range.simps) simp

lemma py_range_nonneg:
  "0 < step \<Longrightarrow> 0 \<le> i \<Longrightarrow> j \<in> set (py_range i n step) \<Longrightarrow> 0 \<le> j"
proof (induction i n step rule: py_range.induct)
  case (1 i stop step)
  show ?case
  proof (cases "i < stop")
    case True
    with 1 show ?thesis by (auto simp: py_range_step)
  next
    case False
    with 1 show ?thesis by (simp add: py_range_done)
  qed
qed

lemma py_slice_window:
  assumes "0 \<le> i" "0 < sz"
  shows "py_slice text i (i + sz) = take (nat sz) (drop (nat i) text)"
proof (cases "i \<le> int (length text)")
  case True
  with assms have "py_slice text i (i + sz) =
      take (nat (min (i + sz) (int (length text)) - i)) (drop (nat i) text)"
    by (simp add: py_slice_def Let_def min_def)
  also have "\<dots> = take (nat sz) (drop (nat i) text)"
    using assms True by (auto simp: min_def)
  finally show ?thesis .
next
  case False
  with assms show ?thesis by (simp add: py_slice_def Let_def min_def)
qed

lemma strip_Nil: "strip [] = []"
  by (simp add: strip_def)

section \<open>Facts about the chunker\<close>

lemma chunk_loop_emit:
  "chunk_loop dp text is acc =
     acc @ concat (map (emit dp text) (visited (chunk_size dp) (int (length text)) is))"
  by (induction "is" arbitrary: acc) (simp_all add: emit_def Let_def)

lemma visited_subset: "set (visited sz n is) \<subseteq> set is"
  by (induction "is") auto

lemma loop_is_sliding_window:
  "0 < step \<Longrightarrow> 0 < chunk_size dp \<Longrightarrow> 0 \<le> i \<Longrightarrow> n = int (length text) \<Longrightarrow>
   chunk_loop dp text (py_range i n step) acc =
     acc @ sliding_window text (nat (chunk_size dp)) (nat step) (nat i)"
proof (induction i n step arbitrary: acc rule: py_range.induct)
  case (1 i stop step)
  show ?case
  proof (cases "i < stop")
    case True
    have n: "nat (i + step) = nat i + nat step" using 1 by (simp add: nat_add_distrib)
    show ?thesis
      apply (subst py_range_step)
      using 1 True apply simp
      using 1 True apply simp
      apply (subst sliding_window.simps)
      using 1 True 
      by (auto simp add: Let_def py_slice_window n)
  next
    case False
    show ?thesis
      apply (subst py_range_done)
      using 1 False apply simp
      using 1 False apply simp
      apply (subst sliding_window.simps)
      using False 1 by (auto simp: Let_def strip_Nil)
  qed
qed

text \<open>
  Claim C3.  For every text and every valid configuration (\<open>size > 0\<close>,
  \<open>0 \<le> overlap < size\<close>) \<open>chunk_text\<close> returns exactly what the sliding-window
  algorithm of the specification produces: windows \<open>text[offset : offset+size]\<close> at
  stride \<open>size - overlap\<close> from offset 0, each trimmed, empty ones skipped, stopping
  after the window with \<open>offset + size \<ge> length(text)\<close>, and nothing for the empty
  text.  Chunking "A. B. C." with size 4 and overlap 1 gives "A. B", "B. C", "C.".
\<close>

theorem chunk_text_is_sliding_window:
  assumes "0 < sz" "0 \<le> ov" "ov < sz"
  shows "chunk_text \<lparr>chunk_size = sz, chunk_overlap = ov\<rparr> text = Inr (chunk_spec text sz ov)
    \<and> chunk_text \<lparr>chunk_size = 4, chunk_overlap = 1\<rparr> (str_of ''A. B. C.'') =
        Inr [str_of ''A. B'', str_of ''B. C'', str_of ''C.'']"
proof
  show "chunk_text \<lparr>chunk_size = sz, chunk_overlap = ov\<rparr> text = Inr (chunk_spec text sz ov)"
  proof (cases "text = []")
    case True
    then show ?thesis by (simp add: chunk_text_def chunk_spec_def)
  next
    case False
    have "chunk_loop \<lparr>chunk_size = sz, chunk_overlap = ov\<rparr> text
            (py_range 0 (int (length text)) (sz - ov)) [] =
          [] @ sliding_window text (nat (chunk_size \<lparr>chunk_size = sz, chunk_overlap = ov\<rparr>)) (nat (sz - ov)) (nat 0)"
      by (rule loop_is_sliding_window) (use assms in simp_all)
    with False assms show ?thesis
      by (simp add: chunk_text_def chunk_spec_def Let_def)
  qed
  show "chunk_text \<lparr>chunk_size = 4, chunk_overlap = 1\<rparr> (str_of ''A. B. C.'') =
        Inr [str_of ''A. B'', str_of ''B. C'', str_of ''C.'']"
    by (simp add: chunk_text_def Let_def py_range.simps py_slice_def strip_def isspace_def str_of_def)
qed

theorem chunk_text_is_sliding_window_witness:
  "(0::int) < 5 \<and> (0::int) \<le> 2 \<and> (2::int) < 5
   \<and> chunk_text \<lparr>chunk_size = 5, chunk_overlap = 2\<rparr> (str_of ''ab  cdefg h'') =
       Inr (chunk_spec (str_of ''ab  cdefg h'') 5 2)
   \<and> chunk_spec (str_of ''ab  cdefg h'') 5 2 = [str_of ''ab  c'', str_of ''cdef'', str_of ''efg h'']"
  using chunk_text_is_sliding_window [of 5 2 "str_of ''ab  cdefg h''"]
  by (simp add: chunk_spec_def sliding_window.simps strip_def isspace_def str_of_def Let_def)

lemma visited_cover:
  "0 < step \<Longrightarrow> step \<le> sz \<Longrightarrow> i \<le> p \<Longrightarrow> p < n \<Longrightarrow>
     \<exists>j \<in> set (visited sz n (py_range i n step)). j \<le> p \<and> p < j + sz"
proof (induction i n step rule: py_range.induct)
  case (1 i stop step)
  have lt: "i < stop" using "1.prems" by simp
  have r: "py_range i stop step = i # py_range (i + step) stop step"
    using "1.prems" lt by (simp add: py_range_step)
  show ?case
  proof (cases "i + sz \<ge> stop")
    case True
    then have "visited sz stop (py_range i stop step) = [i]" by (simp add: r)
    with True "1.prems" show ?thesis by simp
  next
    case False
    then have v: "visited sz stop (py_range i stop step) = i # visited sz stop (py_range (i + step) stop step)"
      by (simp add: r)
    show ?thesis
    proof (cases "p < i + step")
      case True
      with "1.prems" have "i \<le> p \<and> p < i + sz" by simp
      then show ?thesis unfolding v by simp
    next
      case False
      then have "i + step \<le> p" by simp
      from "1.IH"(1)[OF _ "1.prems"(1) "1.prems"(2) this "1.prems"(4)] lt "1.prems"(1)
      have "\<exists>j \<in> set (visited sz stop (py_range (i + step) stop step)). j \<le> p \<and> p < j + sz"
        by simp
      then show ?thesis unfolding v by auto
    qed
  qed
qed


lemma chunk_text_emit:
  "text \<noteq> [] \<Longrightarrow> chunk_size dp \<noteq> chunk_overlap dp \<Longrightarrow>
     chunk_text dp text = Inr (concat (map (emit dp text) (window_offsets dp text)))"
  by (simp add: chunk_text_def window_offsets_def Let_def chunk_loop_emit)

text \<open>
  Claim C7.  For a text of length at least 1 and a valid configuration
  (\<open>0 \<le> overlap < size\<close>), the result of \<open>chunk_text\<close> is what the windows at
  \<open>window_offsets\<close> contribute, and these windows cover the text: every character
  position lies in a window \<open>[offset, offset + size)\<close> that the loop looked at.
\<close>

theorem chunk_windows_cover_text:
  assumes "text \<noteq> []" "0 \<le> chunk_overlap dp" "chunk_overlap dp < chunk_size dp"
  shows "chunk_text dp text = Inr (concat (map (emit dp text) (window_offsets dp text)))
     \<and> (\<forall>p < length text. \<exists>i \<in> set (window_offsets dp text).
            i \<le> int p \<and> int p < i + chunk_size dp)"
proof
  show "chunk_text dp text = Inr (concat (map (emit dp text) (window_offsets dp text)))"
    using assms by (simp add: chunk_text_emit)
  show "\<forall>p < length text. \<exists>i \<in> set (window_offsets dp text).
            i \<le> int p \<and> int p < i + chunk_size dp"
  proof (intro allI impI)
    fix p assume p: "p < length text"
    have "\<exists>j \<in> set (visited (chunk_size dp) (int (length text))
                   (py_range 0 (int (length text)) (chunk_size dp - chunk_overlap dp))).
                 j \<le> int p \<and> int p < j + chunk_size dp"
    proof (rule visited_cover)
      show "0 < chunk_size dp - chunk_overlap dp" using assms by simp
      show "chunk_size dp - chunk_overlap dp \<le> chunk_size dp" using assms by simp
      show "0 \<le> int p" by simp
      show "int p < int (length text)" using p by simp
    qed
    moreover have "window_offsets dp text = visited (chunk_size dp) (int (length text))
                   (py_range 0 (int (length text)) (chunk_size dp - chunk_overlap dp))"
      using assms by (simp add: window_offsets_def)
    ultimately show "\<exists>i \<in> set (window_offsets dp text). i \<le> int p \<and> int p < i + chunk_size dp"
      by simp
  qed
qed

theorem chunk_windows_cover_text_witness:
  "str_of ''A. B. C.'' \<noteq> []
   \<and> (0::int) \<le> chunk_overlap \<lparr>chunk_size = 4, chunk_overlap = 1\<rparr>
   \<and> chunk_overlap \<lparr>chunk_size = 4, chunk_overlap = 1\<rparr>
        < chunk_size \<lparr>chunk_size = 4, chunk_overlap = 1\<rparr>
   \<and> window_offsets \<lparr>chunk_size = 4, chunk_overlap = 1\<rparr> (str_of ''A. B. C.'') = [0, 3, 6]
   \<and> chunk_text \<lparr>chunk_size = 4, chunk_overlap = 1\<rparr> (str_of ''A. B. C.'') =
       Inr (concat (map (emit \<lparr>chunk_size = 4, chunk_overlap = 1\<rparr> (str_of ''A. B. C.''))
                      [0, 3, 6]))"
  using chunk_windows_cover_text
          [of "str_of ''A. B. C.''" "\<lparr>chunk_size = 4, chunk_overlap = 1\<rparr>"]
  by (simp add: window_offsets_def py_range.simps str_of_def)

lemma length_strip: "length (strip s) \<le> length s"
proof -
  have "length (dropWhile isspace (rev (dropWhile isspace s))) \<le> length (rev (dropWhile isspace s))"
    by (rule length_dropWhile_le)
  then have "length (strip s) \<le> length (dropWhile isspace s)"
    by (simp only: strip_def length_rev)
  also have "\<dots> \<le> length s" by (rule length_dropWhile_le)
  finally show ?thesis .
qed

lemma strip_last: "strip s \<noteq> [] \<Longrightarrow> \<not> isspace (last (strip s))"
proof -
  assume ne: "strip s \<noteq> []"
  let ?u = "dropWhile isspace (rev (dropWhile isspace s))"
  from ne have u: "?u \<noteq> []" by (simp add: strip_def)
  then have "\<not> isspace (hd ?u)" by (rule hd_dropWhile)
  moreover have "last (strip s) = hd ?u" using u by (simp add: strip_def last_rev)
  ultimately show ?thesis by simp
qed

lemma strip_hd: "strip s \<noteq> [] \<Longrightarrow> \<not> isspace (hd (strip s))"
proof -
  assume ne: "strip s \<noteq> []"
  let ?t = "dropWhile isspace s"
  let ?u = "dropWhile isspace (rev ?t)"
  from ne have u: "?u \<noteq> []" by (simp add: strip_def)
  have "rev (takeWhile isspace (rev ?t) @ ?u) = rev (rev ?t)"
    by (simp only: takeWhile_dropWhile_id)
  then have t: "?t = rev ?u @ rev (takeWhile isspace (rev ?t))"
    by (simp only: rev_append rev_rev_ident)
  from u have "hd (rev ?u @ rev (takeWhile isspace (rev ?t))) = hd (rev ?u)" by simp
  with t have h: "hd ?t = hd (strip s)" by (simp add: strip_def)
  have "?t \<noteq> []"
  proof
    assume "?t = []"
    with u show False by (simp only: rev.simps(1) dropWhile.simps(1))
  qed
  then have "\<not> isspace (hd ?t)" by (rule hd_dropWhile)
  with h show ?thesis by simp
qed

lemma length_py_slice_window:
  "0 \<le> i \<Longrightarrow> 0 < sz \<Longrightarrow> int (length (py_slice text i (i + sz))) \<le> sz"
  by (simp add: py_slice_window)

lemma emit_chunk:
  assumes "c \<in> set (emit dp text i)" "0 \<le> i" "0 < chunk_size dp"
  shows "c \<noteq> [] \<and> \<not> isspace (hd c) \<and> \<not> isspace (last c) \<and> int (length c) \<le> chunk_size dp"
proof -
  let ?w = "py_slice text i (i + chunk_size dp)"
  from assms(1) have c: "c = strip ?w" and ne: "strip ?w \<noteq> []"
    by (auto simp: emit_def Let_def split: if_splits)
  have "int (length (strip ?w)) \<le> int (length ?w)" using length_strip by simp
  also have "\<dots> \<le> chunk_size dp" using assms by (simp add: length_py_slice_window)
  finally show ?thesis using c ne by (simp add: strip_hd strip_last)
qed

text \<open>
  Claim C10.  For every text and every valid configuration, \<open>chunk_text\<close> returns a
  list of chunks, and each chunk in it is non-empty, neither begins nor ends with a
  whitespace character, and is at most \<open>chunk_size\<close> characters long.
\<close>

theorem chunks_trimmed_and_bounded:
  assumes "0 \<le> chunk_overlap dp" "chunk_overlap dp < chunk_size dp"
  shows "\<exists>chunks. chunk_text dp text = Inr chunks
     \<and> (\<forall>c \<in> set chunks. c \<noteq> [] \<and> \<not> isspace (hd c) \<and> \<not> isspace (last c)
            \<and> int (length c) \<le> chunk_size dp)"
proof (cases "text = []")
  case True
  then show ?thesis by (simp add: chunk_text_def)
next
  case False
  let ?step = "chunk_size dp - chunk_overlap dp"
  let ?is = "visited (chunk_size dp) (int (length text)) (py_range 0 (int (length text)) ?step)"
  from False assms have ct: "chunk_text dp text = Inr (concat (map (emit dp text) ?is))"
    by (simp add: chunk_text_def Let_def chunk_loop_emit)
  have "c \<noteq> [] \<and> \<not> isspace (hd c) \<and> \<not> isspace (last c) \<and> int (length c) \<le> chunk_size dp"
    if "c \<in> set (concat (map (emit dp text) ?is))" for c
  proof -
    from that obtain i where i: "i \<in> set ?is" and c: "c \<in> set (emit dp text i)" by auto
    from i have "i \<in> set (py_range 0 (int (length text)) ?step)"
      using visited_subset by blast
    then have "0 \<le> i" using assms by (intro py_range_nonneg[of "?step" 0 i]) simp_all
    with c assms show ?thesis by (intro emit_chunk[of c dp "text" i]) simp_all
  qed
  with ct show ?thesis by blast
qed

theorem chunks_trimmed_and_bounded_witness:
  "(0::int) \<le> chunk_overlap \<lparr>chunk_size = 5, chunk_overlap = 2\<rparr>
   \<and> chunk_overlap \<lparr>chunk_size = 5, chunk_overlap = 2\<rparr> < chunk_size \<lparr>chunk_size = 5, chunk_overlap = 2\<rparr>
   \<and> chunk_text \<lparr>chunk_size = 5, chunk_overlap = 2\<rparr> (str_of '' ab  cdefg h'') =
        Inr [str_of ''ab'', str_of ''cde'', str_of ''defg'', str_of ''g h'']"
  using chunks_trimmed_and_bounded [of "\<lparr>chunk_size = 5, chunk_overlap = 2\<rparr>" "str_of '' ab  cdefg h''"]
  by (simp add: chunk_text_def Let_def py_range.simps py_slice_def strip_def isspace_def str_of_def)

text \<open>
  Claim C9.  With \<open>overlap > size\<close> (a negative stride) \<open>chunk_text\<close> returns the
  empty list for every text; with \<open>overlap = size\<close> (a zero stride) it raises for every
  non-empty text (\<open>range\<close> refuses a zero step).  Neither configuration ever produces a
  chunk.
\<close>

theorem chunk_text_invalid_stride:
  "(chunk_size dp < chunk_overlap dp \<longrightarrow> chunk_text dp text = Inr [])
   \<and> (chunk_size dp = chunk_overlap dp \<and> text \<noteq> [] \<longrightarrow>
        chunk_text dp text = Inl (ValueError (str_of ''range() arg 3 must not be zero'')))
   \<and> (chunk_size dp \<le> chunk_overlap dp \<longrightarrow> (\<forall>chunks. chunk_text dp text = Inr chunks \<longrightarrow> chunks = []))"
proof -
  have a: "chunk_text dp text = Inr []" if "chunk_size dp < chunk_overlap dp"
  proof (cases "text = []")
    case True
    then show ?thesis by (simp add: chunk_text_def)
  next
    case False
    have "py_range 0 (int (length text)) (chunk_size dp - chunk_overlap dp) = []"
      using that by (intro py_range_backwards) simp_all
    with False that show ?thesis by (simp add: chunk_text_def Let_def)
  qed
  have b: "chunk_text dp text = Inl (ValueError (str_of ''range() arg 3 must not be zero''))"
    if "chunk_size dp = chunk_overlap dp" "text \<noteq> []"
    using that by (simp add: chunk_text_def)
  have c: "chunks = []" if "chunk_size dp \<le> chunk_overlap dp" "chunk_text dp text = Inr chunks" for chunks
  proof (cases "chunk_size dp < chunk_overlap dp")
    case True
    with a that show ?thesis by simp
  next
    case False
    with that have "chunk_size dp = chunk_overlap dp" by simp
    with that(2) show ?thesis by (cases "text = []") (simp_all add: chunk_text_def)
  qed
  from a b c show ?thesis by blast
qed

theorem chunk_text_invalid_stride_witness:
  "chunk_size \<lparr>chunk_size = 4, chunk_overlap = 6\<rparr> < chunk_overlap \<lparr>chunk_size = 4, chunk_overlap = 6\<rparr>
   \<and> chunk_text \<lparr>chunk_size = 4, chunk_overlap = 6\<rparr> (str_of ''A. B. C.'') = Inr []
   \<and> chunk_size \<lparr>chunk_size = 4, chunk_overlap = 4\<rparr> = chunk_overlap \<lparr>chunk_size = 4, chunk_overlap = 4\<rparr>
   \<and> str_of ''A. B. C.'' \<noteq> []
   \<and> chunk_text \<lparr>chunk_size = 4, chunk_overlap = 4\<rparr> (str_of ''A. B. C.'') =
        Inl (ValueError (str_of ''range() arg 3 must not be zero''))"
  using chunk_text_invalid_stride [of "\<lparr>chunk_size = 4, chunk_overlap = 6\<rparr>" "str_of ''A. B. C.''"]
        chunk_text_invalid_stride [of "\<lparr>chunk_size = 4, chunk_overlap = 4\<rparr>" "str_of ''A. B. C.''"]
  by (simp add: str_of_def)

text \<open>
  Claim C2, as amended.  The constructor validates nothing: for every pair
  \<open>(size, overlap)\<close>, also with \<open>overlap \<ge> size\<close>, construction succeeds and the object
  holds the two values as given.
\<close>

theorem constructor_accepts_every_pair:
  "DocumentProcessor_init sz ov = Inr \<lparr>chunk_size = sz, chunk_overlap = ov\<rparr>"
  by (simp add: DocumentProcessor_init_def)

text \<open>
  Claim C2 as stated fails: constructing with \<open>overlap = size\<close> or with
  \<open>overlap > size\<close> is not rejected.
\<close>

theorem constructor_overlap_not_rejected:
  "DocumentProcessor_init 4 4 = Inr \<lparr>chunk_size = 4, chunk_overlap = 4\<rparr>
   \<and> DocumentProcessor_init 4 6 = Inr \<lparr>chunk_size = 4, chunk_overlap = 6\<rparr>"
  by (simp add: DocumentProcessor_init_def)

section \<open>Facts about the vector store\<close>

lemma collection_delete_matching:
  assumes "distinct (map entry_id coll)"
  shows "collection_delete coll (collection_get_ids coll d) =
           filter (\<lambda>e. document_id (meta e) \<noteq> d) coll"
proof -
  have inj: "inj_on entry_id (set coll)"
    using assms by (simp add: distinct_map)
  have "List.member (collection_get_ids coll d) (entry_id e) \<longleftrightarrow> document_id (meta e) = d"
    if e: "e \<in> set coll" for e
  proof
    assume "List.member (collection_get_ids coll d) (entry_id e)"
    then obtain e' where e': "e' \<in> set coll" "document_id (meta e') = d" "entry_id e' = entry_id e"
      by (auto simp: collection_get_ids_def)
    with inj e have "e' = e" by (auto dest: inj_onD)
    with e' show "document_id (meta e) = d" by simp
  next
    assume "document_id (meta e) = d"
    with e show "List.member (collection_get_ids coll d) (entry_id e)"
      by (auto simp: collection_get_ids_def)
  qed
  then show ?thesis
    unfolding collection_delete_def by (intro filter_cong) auto
qed

text \<open>
  Claim C5.  In a collection whose ids are unique, \<open>delete_document\<close> removes exactly
  the chunks whose metadata carries the given \<open>document_id\<close> and returns how many they
  were; when none matches it returns 0 and leaves the collection as it was; afterwards no
  stored chunk carries that \<open>document_id\<close>, and the chunk count has gone down by exactly
  the returned count.
\<close>

theorem delete_document_removes_exactly:
  assumes "distinct (map entry_id coll)"
  shows "delete_document coll d =
           (filter (\<lambda>e. document_id (meta e) \<noteq> d) coll,
            int (length (filter (\<lambda>e. document_id (meta e) = d) coll)))
     \<and> (filter (\<lambda>e. document_id (meta e) = d) coll = [] \<longrightarrow> delete_document coll d = (coll, 0))
     \<and> filter (\<lambda>e. document_id (meta e) = d) (fst (delete_document coll d)) = []
     \<and> get_chunk_count (fst (delete_document coll d)) =
         get_chunk_count coll - snd (delete_document coll d)"
proof -
  let ?hit = "filter (\<lambda>e. document_id (meta e) = d) coll"
  let ?rest = "filter (\<lambda>e. document_id (meta e) \<noteq> d) coll"
  have none: "?rest = coll" if "?hit = []"
  proof -
    from that have "\<forall>e \<in> set coll. document_id (meta e) \<noteq> d"
      by (simp add: filter_empty_conv)
    then show ?thesis by simp
  qed
  have main: "delete_document coll d = (?rest, int (length ?hit))"
  proof (cases "?hit = []")
    case True
    with none show ?thesis by (simp add: delete_document_def collection_get_ids_def)
  next
    case False
    then have "collection_get_ids coll d \<noteq> []" by (simp add: collection_get_ids_def)
    then have "delete_document coll d =
        (collection_delete coll (collection_get_ids coll d), int (length (collection_get_ids coll d)))"
      by (simp add: delete_document_def Let_def)
    also have "\<dots> = (?rest, int (length ?hit))"
      using assms by (simp add: collection_delete_matching) (simp add: collection_get_ids_def)
    finally show ?thesis .
  qed
  have len: "length ?hit + length ?rest = length coll"
    using sum_length_filter_compl[of "\<lambda>e. document_id (meta e) = d" coll] by simp
  have gone: "filter (\<lambda>e. document_id (meta e) = d) ?rest = []"
    by (simp add: filter_empty_conv)
  show ?thesis
  proof (intro conjI impI)
    show "delete_document coll d = (?rest, int (length ?hit))" by (rule main)
    show "delete_document coll d = (coll, 0)" if "?hit = []"
      using main none[OF that] that by simp
    show "filter (\<lambda>e. document_id (meta e) = d) (fst (delete_document coll d)) = []"
      using gone by (simp add: main)
    show "get_chunk_count (fst (delete_document coll d)) =
            get_chunk_count coll - snd (delete_document coll d)"
      using len by (simp add: main get_chunk_count_def collection_count_def)
  qed
qed

theorem delete_document_removes_exactly_witness:
  "distinct (map entry_id demo_collection)
   \<and> delete_document demo_collection (str_of ''d1'') =
       ([\<lparr>entry_id = str_of ''d2_chunk_0'', embedding = [0, 1], document = str_of ''C. D'',
          meta = demo_meta (str_of ''d2'') 0\<rparr>], 2)
   \<and> delete_document demo_collection (str_of ''d3'') = (demo_collection, 0)"
  using delete_document_removes_exactly [of demo_collection "str_of ''d1''"]
        delete_document_removes_exactly [of demo_collection "str_of ''d3''"]
  by (simp add: demo_collection_def demo_meta_def str_of_def)

section \<open>Facts about the availability check\<close>

lemma py_in_iff: "py_in a b \<longleftrightarrow> (\<exists>pre suf. b = pre @ a @ suf)"
proof (induction b)
  case Nil
  then show ?case by auto
next
  case (Cons c cs)
  show ?case
  proof
    assume "py_in a (c # cs)"
    then consider "prefix a (c # cs)" | "py_in a cs" by auto
    then show "\<exists>pre suf. c # cs = pre @ a @ suf"
    proof cases
      case 1
      then obtain suf where "c # cs = a @ suf" by (auto simp: prefix_def)
      then have "c # cs = [] @ a @ suf" by simp
      then show ?thesis by blast
    next
      case 2
      with Cons obtain pre suf where "cs = pre @ a @ suf" by auto
      then have "c # cs = (c # pre) @ a @ suf" by simp
      then show ?thesis by blast
    qed
  next
    assume "\<exists>pre suf. c # cs = pre @ a @ suf"
    then obtain pre suf where e: "c # cs = pre @ a @ suf" by auto
    show "py_in a (c # cs)"
    proof (cases pre)
      case Nil
      with e have "prefix a (c # cs)" by (simp add: prefix_def)
      then show ?thesis by simp
    next
      case (Cons p ps)
      with e have "cs = ps @ a @ suf" by simp
      with Cons.IH have "py_in a cs" by blast
      then show ?thesis by simp
    qed
  qed
qed

lemma startswith_py_in: "startswith name p \<Longrightarrow> py_in p name"
  by (auto simp: startswith_def prefix_def py_in_iff intro: exI[of _ "[]"])

text \<open>
  Claim C8, as amended.  For every list of model names the backend returns,
  \<open>check_ollama_available\<close> reports the configured model as present if and only if the
  configured name occurs inside some listed name as a block of consecutive characters
  (an equal name and a name that starts with it are two such cases).  It returns false
  when the backend call fails.
\<close>

theorem availability_is_substring_match:
  "(client_list (client self) = Inr (map Some names) \<longrightarrow>
      check_ollama_available self =
        (\<exists>name \<in> set names. \<exists>pre suf. name = pre @ model_name self @ suf))
   \<and> (client_list (client self) = Inl e \<longrightarrow> \<not> check_ollama_available self)"
proof (intro conjI impI)
  assume l: "client_list (client self) = Inr (map Some names)"
  have "list_ex (\<lambda>m. m = None) (map Some names) = False"
    by (simp add: list_ex_iff)
  moreover have "map the (map Some names) = names" by (simp add: comp_def)
  ultimately have "check_ollama_available self =
      list_ex (\<lambda>name. py_in (model_name self) name \<or> startswith name (model_name self)) names"
    using l by (simp add: check_ollama_available_def)
  also have "\<dots> = (\<exists>name \<in> set names. py_in (model_name self) name)"
    using startswith_py_in by (auto simp: list_ex_iff)
  also have "\<dots> = (\<exists>name \<in> set names. \<exists>pre suf. name = pre @ model_name self @ suf)"
    by (simp add: py_in_iff)
  finally show "check_ollama_available self =
        (\<exists>name \<in> set names. \<exists>pre suf. name = pre @ model_name self @ suf)" .
next
  assume "client_list (client self) = Inl e"
  then show "\<not> check_ollama_available self" by (simp add: check_ollama_available_def)
qed

theorem availability_is_substring_match_witness:
  "client_list (client (demo_pipeline (listing_client [str_of ''mistral'', str_of ''llama3.2:latest''])))
      = Inr (map Some [str_of ''mistral'', str_of ''llama3.2:latest''])
   \<and> check_ollama_available
        (demo_pipeline (listing_client [str_of ''mistral'', str_of ''llama3.2:latest'']))
   \<and> str_of ''llama3.2:latest'' = [] @ model_name (demo_pipeline offline_client) @ str_of '':latest''
   \<and> client_list (client (demo_pipeline offline_client)) = Inl connection_refused
   \<and> \<not> check_ollama_available (demo_pipeline offline_client)"
  using availability_is_substring_match
          [of "demo_pipeline (listing_client [str_of ''mistral'', str_of ''llama3.2:latest''])"
              "[str_of ''mistral'', str_of ''llama3.2:latest'']" connection_refused]
        availability_is_substring_match
          [of "demo_pipeline offline_client" "[]" connection_refused]
  by (simp add: demo_pipeline_def listing_client_def offline_client_def str_of_def
        check_ollama_available_def prefix_def startswith_def)

text \<open>
  Claim C8 as stated fails: with the model \<open>llama3.2\<close> configured and the backend
  listing only \<open>my-llama3.2\<close>, the check reports the model as present although the listed
  name neither equals the configured name nor starts with it.
\<close>

theorem availability_not_only_prefix:
  "check_ollama_available (demo_pipeline (listing_client [str_of ''my-llama3.2'']))
   \<and> str_of ''my-llama3.2'' \<noteq> model_name (demo_pipeline (listing_client [str_of ''my-llama3.2'']))
   \<and> \<not> startswith (str_of ''my-llama3.2'')
          (model_name (demo_pipeline (listing_client [str_of ''my-llama3.2''])))"
  by (simp add: demo_pipeline_def listing_client_def str_of_def
        check_ollama_available_def startswith_def)

section \<open>Facts about the query route\<close>

text \<open>
  Claim C1, as amended.  For every query asked against an index holding zero chunks, the
  query route returns no response: it raises \<open>HTTPException\<close> with status 400 and the
  detail "No documents have been indexed yet. Please upload documents first.", whatever
  the embedding model, the index query and the generation backend would do.
\<close>

theorem empty_index_raises_400:
  assumes "get_chunk_count coll = 0"
  shows "query_documents sv coll request =
           Inl (HTTPException 400
             (str_of ''No documents have been indexed yet. Please upload documents first.''))"
  using assms by (simp add: query_documents_def)

theorem empty_index_raises_400_witness:
  "get_chunk_count [] = 0
   \<and> query_documents demo_services []
        \<lparr>request_query = str_of ''Which product is waterproof?'', request_top_k = None\<rparr> =
       Inl (HTTPException 400
             (str_of ''No documents have been indexed yet. Please upload documents first.''))"
  using empty_index_raises_400
          [of "[]" demo_services
              "\<lparr>request_query = str_of ''Which product is waterproof?'', request_top_k = None\<rparr>"]
  by (simp add: get_chunk_count_def collection_count_def)

text \<open>
  Claim C1 as stated fails: a query against the empty index raises instead of returning a
  response with empty sources.
\<close>

theorem empty_index_no_sentinel_response:
  "query_documents demo_services [] demo_request =
     Inl (HTTPException 400
           (str_of ''No documents have been indexed yet. Please upload documents first.''))"
  by (simp add: query_documents_def get_chunk_count_def collection_count_def)

section \<open>Facts about the sources of a response\<close>

lemma round_half_even_bounds:
  assumes "0 \<le> y" "y \<le> 1000"
  shows "0 \<le> round_half_even y \<and> round_half_even y \<le> 1000"
proof -
  have f0: "0 \<le> \<lfloor>y\<rfloor>" using assms by simp
  have f1: "\<lfloor>y\<rfloor> \<le> 1000" using assms by (simp add: floor_le_iff)
  show ?thesis
  proof (cases "\<lfloor>y\<rfloor> = 1000")
    case True
    then have "1000 \<le> y" by (metis of_int_floor_le of_int_numeral)
    with assms have "y = 1000" by simp
    then show ?thesis by (simp add: round_half_even_def)
  next
    case False
    with f1 have "\<lfloor>y\<rfloor> + 1 \<le> 1000" by linarith
    with f0 show ?thesis by (auto simp: round_half_even_def Let_def)
  qed
qed

lemma py_round3_bounds:
  assumes "0 \<le> x" "x \<le> 1"
  shows "0 \<le> py_round3 x \<and> py_round3 x \<le> 1"
proof -
  have "0 \<le> x * 1000" "x * 1000 \<le> 1000" using assms by simp_all
  then have "0 \<le> round_half_even (x * 1000) \<and> round_half_even (x * 1000) \<le> 1000"
    by (rule round_half_even_bounds)
  then show ?thesis by (simp add: py_round3_def)
qed

lemma py_round3_zero: "py_round3 0 = 0"
  by (simp add: py_round3_def round_half_even_def)

lemma score_of_distance:
  assumes "0 \<le> distance"
  shows "relevance_score (make_source doc m distance) = py_round3 (max 0 (min 1 (1 - distance)))"
    and "0 \<le> relevance_score (make_source doc m distance)"
    and "relevance_score (make_source doc m distance) \<le> 1"
    and "1 < distance \<Longrightarrow> relevance_score (make_source doc m distance) = 0"
proof -
  have s: "similarity_score distance = max 0 (min 1 (1 - distance))"
    using assms by (auto simp: similarity_score_def max_def min_def)
  have b: "0 \<le> similarity_score distance \<and> similarity_score distance \<le> 1"
    using assms by (auto simp: similarity_score_def)
  show "relevance_score (make_source doc m distance) = py_round3 (max 0 (min 1 (1 - distance)))"
    by (simp add: make_source_def s)
  show "0 \<le> relevance_score (make_source doc m distance)"
    using b py_round3_bounds by (simp add: make_source_def)
  show "relevance_score (make_source doc m distance) \<le> 1"
    using b py_round3_bounds by (simp add: make_source_def)
  show "relevance_score (make_source doc m distance) = 0" if "1 < distance"
    using that by (simp add: make_source_def similarity_score_def py_round3_zero)
qed

text \<open>The distances paired with the documents in the loop over \<open>zip\<close>.\<close>

lemma extract_sources_scores:
  assumes "extract_sources sr = Inr srcs"
    and "\<And>ds rest. distances sr = Some (ds # rest) \<Longrightarrow> \<forall>d \<in> set ds. 0 \<le> d"
  shows "\<exists>ds. (\<forall>d \<in> set ds. 0 \<le> d)
           \<and> map relevance_score srcs = map (\<lambda>d. py_round3 (max 0 (min 1 (1 - d)))) ds"
proof (cases "documents sr")
  case Nil
  with assms(1) have "srcs = []" by (simp add: extract_sources_def)
  then show ?thesis by (intro exI[of _ "[]"]) simp
next
  case (Cons docs rest)
  show ?thesis
  proof (cases "docs = []")
    case True
    with Cons assms(1) have "srcs = []" by (simp add: extract_sources_def)
    then show ?thesis by (intro exI[of _ "[]"]) simp
  next
    case False
    with Cons assms(1) obtain ms ds where
      srcs: "srcs = map (\<lambda>(doc, m, distance). make_source doc m distance) (zip docs (zip ms ds))"
      and ds: "\<forall>d \<in> set ds. 0 \<le> d"
      using assms(2)
      by (auto simp: extract_sources_def split: list.splits option.splits)
    let ?used = "map (\<lambda>(doc, m, d). d) (zip docs (zip ms ds))"
    have sub: "set ?used \<subseteq> set ds"
    proof
      fix d assume "d \<in> set ?used"
      then obtain doc m where "(doc, m, d) \<in> set (zip docs (zip ms ds))" by auto
      then have "(m, d) \<in> set (zip ms ds)" by (rule set_zip_rightD)
      then show "d \<in> set ds" by (rule set_zip_rightD)
    qed
    have "map relevance_score srcs =
            map (\<lambda>(doc, m, d). relevance_score (make_source doc m d)) (zip docs (zip ms ds))"
      by (simp add: srcs comp_def case_prod_unfold)
    also have "\<dots> = map (\<lambda>(doc, m, d). py_round3 (max 0 (min 1 (1 - d)))) (zip docs (zip ms ds))"
    proof (rule map_cong[OF refl])
      fix x assume xin: "x \<in> set (zip docs (zip ms ds))"
      obtain doc m d where x: "x = (doc, m, d)" by (cases x) auto
      from xin x have "(m, d) \<in> set (zip ms ds)" by (auto dest: set_zip_rightD)
      then have "d \<in> set ds" by (rule set_zip_rightD)
      with ds have "0 \<le> d" by blast
      then show "(case x of (doc, m, d) \<Rightarrow> relevance_score (make_source doc m d)) =
                 (case x of (doc, m, d) \<Rightarrow> py_round3 (max 0 (min 1 (1 - d))))"
        by (simp add: x score_of_distance(1))
    qed
    also have "\<dots> = map (\<lambda>d. py_round3 (max 0 (min 1 (1 - d)))) ?used"
      by (simp add: comp_def case_prod_unfold)
    finally have "map relevance_score srcs = map (\<lambda>d. py_round3 (max 0 (min 1 (1 - d)))) ?used" .
    moreover have "\<forall>d \<in> set ?used. 0 \<le> d" using sub ds by blast
    ultimately show ?thesis by blast
  qed
qed


text \<open>
  Claim C4.  For a retrieved result with \<open>distance \<ge> 0\<close>, the relevance score that
  \<open>generate_response\<close> computes is \<open>clamp(1 - distance, 0, 1)\<close> rounded to three
  decimal places; it lies between 0 and 1, and a distance above 1 gives the score 0.
  Hence, when all distances of a query result are non-negative, every source of the
  response has a score between 0 and 1.
\<close>

theorem relevance_score_clamped:
  "(0 \<le> distance \<longrightarrow>
      relevance_score (make_source doc m distance) = py_round3 (max 0 (min 1 (1 - distance)))
      \<and> 0 \<le> relevance_score (make_source doc m distance)
      \<and> relevance_score (make_source doc m distance) \<le> 1
      \<and> (1 < distance \<longrightarrow> relevance_score (make_source doc m distance) = 0))
   \<and> ((\<forall>ds rest. distances sr = Some (ds # rest) \<longrightarrow> (\<forall>d \<in> set ds. 0 \<le> d))
        \<and> generate_response self now q sr = Inr r \<longrightarrow>
        (\<forall>s \<in> set (sources r). 0 \<le> relevance_score s \<and> relevance_score s \<le> 1))"
proof (intro conjI impI)
  assume "0 \<le> distance"
  then show "relevance_score (make_source doc m distance) = py_round3 (max 0 (min 1 (1 - distance)))"
    and "0 \<le> relevance_score (make_source doc m distance)"
    and "relevance_score (make_source doc m distance) \<le> 1"
    by (rule score_of_distance)+
next
  assume "0 \<le> distance" "1 < distance"
  then show "relevance_score (make_source doc m distance) = 0"
    by (rule score_of_distance)
next
  assume a: "(\<forall>ds rest. distances sr = Some (ds # rest) \<longrightarrow> (\<forall>d \<in> set ds. 0 \<le> d))
        \<and> generate_response self now q sr = Inr r"
  then have "extract_sources sr = Inr (sources r)"
    by (auto simp: generate_response_def Let_def split: sum.splits)
  moreover from a have "\<And>ds rest. distances sr = Some (ds # rest) \<Longrightarrow> \<forall>d \<in> set ds. 0 \<le> d"
    by blast
  ultimately obtain ds where ds: "\<forall>d \<in> set ds. 0 \<le> d"
    and m: "map relevance_score (sources r) = map (\<lambda>d. py_round3 (max 0 (min 1 (1 - d)))) ds"
    using extract_sources_scores by blast
  show "\<forall>s \<in> set (sources r). 0 \<le> relevance_score s \<and> relevance_score s \<le> 1"
  proof
    fix s assume "s \<in> set (sources r)"
    then have "relevance_score s \<in> set (map relevance_score (sources r))" by simp
    with m obtain d where "d \<in> set ds" and e: "relevance_score s = py_round3 (max 0 (min 1 (1 - d)))"
      by auto
    have "0 \<le> max 0 (min 1 (1 - d))" "max 0 (min 1 (1 - d)) \<le> 1" by simp_all
    then have "0 \<le> py_round3 (max 0 (min 1 (1 - d))) \<and> py_round3 (max 0 (min 1 (1 - d))) \<le> 1"
      by (rule py_round3_bounds)
    with e show "0 \<le> relevance_score s \<and> relevance_score s \<le> 1" by simp
  qed
qed

theorem relevance_score_clamped_witness:
  "(0::rat) \<le> 1 / 3
   \<and> relevance_score (make_source (str_of ''A. B'') (demo_meta (str_of ''d1'') 0) (1 / 3)) = 667 / 1000
   \<and> (1::rat) < 3 / 2
   \<and> relevance_score (make_source (str_of ''A. B'') (demo_meta (str_of ''d1'') 0) (3 / 2)) = 0
   \<and> distances demo_results = Some [[1 / 4, 3 / 2]]
   \<and> map_sum id (\<lambda>r. map relevance_score (sources r))
        (generate_response (demo_pipeline offline_client) (str_of ''2024-01-01T00:00:00'')
           (str_of ''What is B?'') demo_results) = Inr [3 / 4, 0]"
proof -
  have f: "\<lfloor>(2000::rat) / 3\<rfloor> = 666" by (simp add: floor_eq_iff)
  show ?thesis
    using relevance_score_clamped
            [of "1 / 3" "str_of ''A. B''" "demo_meta (str_of ''d1'') 0" demo_results
                "demo_pipeline offline_client" "str_of ''2024-01-01T00:00:00''"
                "str_of ''What is B?''"]
          relevance_score_clamped
            [of "3 / 2" "str_of ''A. B''" "demo_meta (str_of ''d1'') 0" demo_results
                "demo_pipeline offline_client" "str_of ''2024-01-01T00:00:00''"
                "str_of ''What is B?''"]
    by (simp add: make_source_def similarity_score_def py_round3_def round_half_even_def Let_def
          demo_results_def demo_meta_def demo_pipeline_def offline_client_def
          generate_response_def build_context_def extract_sources_def connection_refused_def f)
qed

section \<open>Facts about generation failure\<close>

lemma chroma_shaped_returns:
  assumes "chroma_shaped sr"
  shows "\<exists>context srcs. build_context sr = Inr context \<and> extract_sources sr = Inr srcs"
  using assms
  by (auto simp: chroma_shaped_def build_context_def extract_sources_def
           split: list.splits option.splits)

text \<open>
  Claim C6.  For every question and every query result, \<open>generate_response\<close> returns a
  structured response whatever the backend does: its sources are determined by the query
  result alone (the same list whether generation succeeds or fails), its query and
  timestamp are the ones given, and when the backend call fails its answer is the text
  "Error generating response: " followed by the text of the failure.
\<close>

theorem generation_failure_degrades:
  assumes "chroma_shaped sr"
  shows "\<exists>context srcs. build_context sr = Inr context \<and> extract_sources sr = Inr srcs
     \<and> (\<forall>self now q. \<exists>r. generate_response self now q sr = Inr r
            \<and> sources r = srcs \<and> query r = q \<and> timestamp r = now
            \<and> (\<forall>e. client_generate (client self) (model_name self) (build_prompt q context) = Inl e
                  \<longrightarrow> answer r = str_of ''Error generating response: '' @ exc_str e))"
proof -
  from assms obtain ctx srcs
    where c: "build_context sr = Inr ctx" and s: "extract_sources sr = Inr srcs"
    using chroma_shaped_returns by blast
  have "\<exists>r. generate_response self now q sr = Inr r
            \<and> sources r = srcs \<and> query r = q \<and> timestamp r = now
            \<and> (\<forall>e. client_generate (client self) (model_name self) (build_prompt q ctx) = Inl e
                  \<longrightarrow> answer r = str_of ''Error generating response: '' @ exc_str e)"
    for self now q
    by (simp add: generate_response_def c s Let_def)
  with c s show ?thesis by blast
qed

theorem generation_failure_degrades_witness:
  "chroma_shaped demo_results
   \<and> generate_response (demo_pipeline offline_client) (str_of ''2024-01-01T00:00:00'')
        (str_of ''What is B?'') demo_results =
       Inr \<lparr>answer = str_of ''Error generating response: connection refused'',
            sources =
              [\<lparr>source_document_id = str_of ''d1'', source_filename = str_of ''a.txt'',
                 source_chunk_index = 0, relevance_score = 3 / 4, content = str_of ''A. B''\<rparr>,
               \<lparr>source_document_id = str_of ''d1'', source_filename = str_of ''a.txt'',
                 source_chunk_index = 1, relevance_score = 0, content = str_of ''B. C''\<rparr>],
            query = str_of ''What is B?'',
            timestamp = str_of ''2024-01-01T00:00:00''\<rparr>
   \<and> generate_response (demo_pipeline (listing_client [])) (str_of ''2024-01-01T00:00:00'')
        (str_of ''What is B?'') demo_results =
       Inr \<lparr>answer = str_of ''ok'',
            sources =
              [\<lparr>source_document_id = str_of ''d1'', source_filename = str_of ''a.txt'',
                 source_chunk_index = 0, relevance_score = 3 / 4, content = str_of ''A. B''\<rparr>,
               \<lparr>source_document_id = str_of ''d1'', source_filename = str_of ''a.txt'',
                 source_chunk_index = 1, relevance_score = 0, content = str_of ''B. C''\<rparr>],
            query = str_of ''What is B?'',
            timestamp = str_of ''2024-01-01T00:00:00''\<rparr>"
proof -
  have shaped: "chroma_shaped demo_results"
    by (simp add: chroma_shaped_def demo_results_def)
  from generation_failure_degrades [OF shaped] obtain ctx srcs where
    s: "extract_sources demo_results = Inr srcs" and
    c: "build_context demo_results = Inr ctx" and
    g: "\<And>self now q. \<exists>r. generate_response self now q demo_results = Inr r
            \<and> sources r = srcs \<and> query r = q \<and> timestamp r = now
            \<and> (\<forall>e. client_generate (client self) (model_name self) (build_prompt q ctx) = Inl e
                  \<longrightarrow> answer r = str_of ''Error generating response: '' @ exc_str e)"
    by blast
  have srcs: "srcs =
              [\<lparr>source_document_id = str_of ''d1'', source_filename = str_of ''a.txt'',
                 source_chunk_index = 0, relevance_score = 3 / 4, content = str_of ''A. B''\<rparr>,
               \<lparr>source_document_id = str_of ''d1'', source_filename = str_of ''a.txt'',
                 source_chunk_index = 1, relevance_score = 0, content = str_of ''B. C''\<rparr>]"
    using s
    by (simp add: extract_sources_def demo_results_def demo_meta_def make_source_def
          similarity_score_def py_round3_def round_half_even_def Let_def str_of_def)
  from g [of "demo_pipeline offline_client" "str_of ''2024-01-01T00:00:00''" "str_of ''What is B?''"]
  obtain r where r: "generate_response (demo_pipeline offline_client)
        (str_of ''2024-01-01T00:00:00'') (str_of ''What is B?'') demo_results = Inr r"
    and "sources r = srcs" "query r = str_of ''What is B?''"
        "timestamp r = str_of ''2024-01-01T00:00:00''"
    and "answer r = str_of ''Error generating response: '' @ exc_str connection_refused"
    by (auto simp: demo_pipeline_def offline_client_def)
  then have "r = \<lparr>answer = str_of ''Error generating response: connection refused'',
            sources = srcs, query = str_of ''What is B?'',
            timestamp = str_of ''2024-01-01T00:00:00''\<rparr>"
    by (simp add: connection_refused_def str_of_def)
  with r srcs have first: "generate_response (demo_pipeline offline_client)
        (str_of ''2024-01-01T00:00:00'') (str_of ''What is B?'') demo_results =
       Inr \<lparr>answer = str_of ''Error generating response: connection refused'',
            sources =
              [\<lparr>source_document_id = str_of ''d1'', source_filename = str_of ''a.txt'',
                 source_chunk_index = 0, relevance_score = 3 / 4, content = str_of ''A. B''\<rparr>,
               \<lparr>source_document_id = str_of ''d1'', source_filename = str_of ''a.txt'',
                 source_chunk_index = 1, relevance_score = 0, content = str_of ''B. C''\<rparr>],
            query = str_of ''What is B?'',
            timestamp = str_of ''2024-01-01T00:00:00''\<rparr>"
    by simp
  have second: "generate_response (demo_pipeline (listing_client [])) (str_of ''2024-01-01T00:00:00'')
        (str_of ''What is B?'') demo_results =
       Inr \<lparr>answer = str_of ''ok'', sources = srcs, query = str_of ''What is B?'',
            timestamp = str_of ''2024-01-01T00:00:00''\<rparr>"
    by (simp add: generate_response_def c s demo_pipeline_def listing_client_def
          strip_def isspace_def str_of_def)
  from shaped first second srcs show ?thesis by simp
qed

end
